theory Spec2Isabelle
  imports Main "HOL-Library.Word" "HOL-Library.Sublist"
begin

section \<open>The Windows child-process controller (process_win.hpp)\<close>

text \<open>
  A shallow embedding of class \<open>Process\<close>. The members of the class are the fields of
  a record (a C++ member \<open>name_\<close> is the field \<open>name_'\<close>, since a name may not
  end in an underscore here). Everything outside the object is the \<open>world\<close>: the global
  \<open>fast_chess::process_list\<close> and the sequence of calls made to the operating system
  and to the logger, in the order in which they are made. What the operating system
  answers is an argument of the operation that asks.
\<close>

subsection \<open>Data\<close>

type_synonym HANDLE = "64 word"
type_synonym DWORD = "32 word"

definition STILL_ACTIVE :: DWORD where
  "STILL_ACTIVE = 259"

record PROCESS_INFORMATION =
  hProcess :: HANDLE
  hThread :: HANDLE
  dwProcessId :: DWORD
  dwThreadId :: DWORD

text \<open>\<open>PROCESS_INFORMATION()\<close>: value initialisation, every member zero.\<close>

definition PROCESS_INFORMATION_zero :: PROCESS_INFORMATION where
  "PROCESS_INFORMATION_zero =
     \<lparr>hProcess = 0, hThread = 0, dwProcessId = 0, dwThreadId = 0\<rparr>"

text \<open>
  Modelled from the spec: \<open>Status\<close> is declared in \<open>process/iprocess.hpp\<close>, which is
  not among the sources. The spec: "one of OK, ERR, TIMEOUT. No other values."
\<close>

datatype Status = OK | ERR | TIMEOUT

record Process =
  command_' :: string
  args_' :: string
  log_name_' :: string
  is_initalized_' :: bool
  pi_' :: PROCESS_INFORMATION
  child_std_out_' :: HANDLE
  child_std_in_' :: HANDLE

text \<open>
  The calls that leave the object, with the arguments that matter. \<open>WriteFile\<close> carries
  the buffer and the byte count as passed (\<open>input.length()\<close> converted to a DWORD).
  The logger (\<open>util/logger/logger.hpp\<close>) is not among the sources: a call of
  \<open>Logger::readFromEngine\<close> or \<open>Logger::writeToEngine\<close> is recorded with its text
  and log name, and nothing is said about what the logger does with them.
\<close>

datatype effect =
    CreatePipe
  | SetHandleInformation HANDLE
  | CreateProcessA string
  | CloseHandle HANDLE
  | GetExitCodeProcess HANDLE
  | TerminateProcess HANDLE
  | ReadFile HANDLE
  | WriteFile HANDLE string DWORD
  | readFromEngine string string
  | writeToEngine string string

record world =
  process_list :: "HANDLE set"
  trace :: "effect list"

definition emit :: "effect list \<Rightarrow> world \<Rightarrow> world" where
  "emit es w = w\<lparr>trace := trace w @ es\<rparr>"

text \<open>
  Modelled from the spec: \<open>ThreadVector\<close> (\<open>util/thread_vector.hpp\<close>) is not among
  the sources. The spec describes the registry as "a shared, thread-safe collection of
  opaque child-process identifiers, mutated by every controller's init (add) and kill
  (remove)", to be implemented "as a lock-protected set"; so \<open>push\<close> adds a handle to
  a set and \<open>remove\<close> takes it out.
\<close>

definition ThreadVector_push :: "HANDLE \<Rightarrow> world \<Rightarrow> world" where
  "ThreadVector_push h w = w\<lparr>process_list := insert h (process_list w)\<rparr>"

definition ThreadVector_remove :: "HANDLE \<Rightarrow> world \<Rightarrow> world" where
  "ThreadVector_remove h w = w\<lparr>process_list := process_list w - {h}\<rparr>"

text \<open>
  How a call ends: an \<open>assert\<close> that fails aborts the program (the assertions are
  compiled in, as in a build without \<open>NDEBUG\<close>), a call may never come back, or it
  returns.
\<close>

datatype 'a outcome = AssertionFailed | NeverReturns | Returns 'a

subsection \<open>init\<close>

text \<open>
  \<open>CreatePipe\<close> fills two local handles that are not initialised before the call; when
  it fails they keep whatever they held, so the answer carries both values in either case.
  \<open>CreateProcessA\<close> fills \<open>pi_\<close> on success and leaves it as it is on failure.
\<close>

record pipe_answer =
  pipe_created :: bool
  read_end :: HANDLE
  write_end :: HANDLE

record spawn_answer =
  stdout_pipe :: pipe_answer
  stdin_pipe :: pipe_answer
  process_created :: "PROCESS_INFORMATION option"

definition init ::
    "string \<Rightarrow> string \<Rightarrow> string \<Rightarrow> spawn_answer \<Rightarrow> Process \<Rightarrow> world \<Rightarrow> Process \<times> world" where
  "init command args log_name os p w =
     (let p1 = p\<lparr>command_' := command, args_' := args, log_name_' := log_name,
                  pi_' := PROCESS_INFORMATION_zero\<rparr>;
          child_stdout_read = read_end (stdout_pipe os);
          child_stdout_write = write_end (stdout_pipe os);
          w1 = emit [CreatePipe, SetHandleInformation child_stdout_read] w;
          child_stdin_read = read_end (stdin_pipe os);
          child_stdin_write = write_end (stdin_pipe os);
          w2 = emit [CreatePipe, SetHandleInformation child_stdin_write] w1;
          w3 = emit [CreateProcessA (command @ '' '' @ args)] w2;
          p2 = (case process_created os of
                  None \<Rightarrow> p1
                | Some info \<Rightarrow> p1\<lparr>pi_' := info\<rparr>);
          w4 = emit [CloseHandle child_stdout_write, CloseHandle child_stdin_read] w3;
          p3 = p2\<lparr>child_std_out_' := child_stdout_read, child_std_in_' := child_stdin_write\<rparr>;
          w5 = ThreadVector_push (hProcess (pi_' p3)) w4
      in (p3\<lparr>is_initalized_' := True\<rparr>, w5))"

subsection \<open>alive, closeHandles, killProcess, restart\<close>

text \<open>
  \<open>GetExitCodeProcess\<close> writes the exit code when it succeeds; \<open>exitCode\<close> starts
  at 0 and keeps that value when the call fails (answer \<open>None\<close>).
\<close>

definition exit_code_read :: "DWORD option \<Rightarrow> DWORD" where
  "exit_code_read answer = (case answer of None \<Rightarrow> 0 | Some c \<Rightarrow> c)"

definition alive :: "DWORD option \<Rightarrow> Process \<Rightarrow> world \<Rightarrow> (bool \<times> world) outcome" where
  "alive answer p w =
     (if \<not> is_initalized_' p then AssertionFailed
      else let w1 = emit [GetExitCodeProcess (hProcess (pi_' p))] w;
               exitCode = exit_code_read answer
           in Returns (exitCode = STILL_ACTIVE, w1))"

definition closeHandles :: "Process \<Rightarrow> world \<Rightarrow> world outcome" where
  "closeHandles p w =
     (if \<not> is_initalized_' p then AssertionFailed
      else Returns (emit [CloseHandle (hThread (pi_' p)), CloseHandle (hProcess (pi_' p)),
                          CloseHandle (child_std_out_' p), CloseHandle (child_std_in_' p)] w))"

text \<open>
  The Win32 calls do not throw, so the two \<open>catch\<close> blocks never run; the assertion of
  \<open>closeHandles\<close> is the only way \<open>killProcess\<close> could stop early.
\<close>

definition killProcess :: "DWORD option \<Rightarrow> Process \<Rightarrow> world \<Rightarrow> (Process \<times> world) outcome" where
  "killProcess answer p w =
     (let w1 = ThreadVector_remove (hProcess (pi_' p)) w
      in if \<not> is_initalized_' p then Returns (p, w1)
         else let w2 = emit [GetExitCodeProcess (hProcess (pi_' p))] w1;
                  exitCode = exit_code_read answer;
                  w3 = (if exitCode = STILL_ACTIVE
                        then emit [TerminateProcess (hProcess (pi_' p))] w2 else w2)
              in case closeHandles p w3 of
                   AssertionFailed \<Rightarrow> AssertionFailed
                 | NeverReturns \<Rightarrow> NeverReturns
                 | Returns w4 \<Rightarrow> Returns (p\<lparr>is_initalized_' := False\<rparr>, w4))"

definition restart ::
    "DWORD option \<Rightarrow> spawn_answer \<Rightarrow> Process \<Rightarrow> world \<Rightarrow> (Process \<times> world) outcome" where
  "restart answer os p w =
     (case killProcess answer p w of
        AssertionFailed \<Rightarrow> AssertionFailed
      | NeverReturns \<Rightarrow> NeverReturns
      | Returns (p1, w1) \<Rightarrow>
          Returns (init (command_' p1) (args_' p1) (log_name_' p1) os p1 w1))"

subsection \<open>readProcess\<close>

definition newline :: char where
  "newline = CHR 0x0A"

definition carriage_return :: char where
  "carriage_return = CHR 0x0D"

text \<open>
  \<open>currentLine.rfind(last_word, 0)\<close>: the last occurrence of \<open>last_word\<close> that starts
  at position 0 or before, that is position 0 when \<open>currentLine\<close> starts with
  \<open>last_word\<close> and \<open>npos\<close> (here \<open>None\<close>) otherwise.
\<close>

definition rfind0 :: "string \<Rightarrow> string \<Rightarrow> nat option" where
  "rfind0 currentLine last_word = (if prefix last_word currentLine then Some 0 else None)"

text \<open>
  The \<open>for\<close> loop over the bytes of one buffer. The state is \<open>currentLine\<close>, the
  caller's \<open>lines\<close> and the trace (for the logger call). \<open>Some OK\<close> is the
  \<open>return Status::OK\<close> inside the loop, \<open>None\<close> is the end of the buffer.
\<close>

fun scan_buffer ::
    "string \<Rightarrow> string \<Rightarrow> string \<Rightarrow> string \<times> string list \<times> effect list \<Rightarrow>
     Status option \<times> string \<times> string list \<times> effect list" where
  "scan_buffer last_word log_name [] st = (None, st)"
| "scan_buffer last_word log_name (c # buffer) (currentLine, lines, tr) =
     (if c \<noteq> newline \<and> c \<noteq> carriage_return
      then scan_buffer last_word log_name buffer (currentLine @ [c], lines, tr)
      else if currentLine = []
      then scan_buffer last_word log_name buffer (currentLine, lines, tr)
      else let tr1 = tr @ [readFromEngine currentLine log_name];
               lines1 = lines @ [currentLine]
           in if rfind0 currentLine last_word = Some 0
              then (Some OK, currentLine, lines1, tr1)
              else scan_buffer last_word log_name buffer ([], lines1, tr1))"

text \<open>
  What one call of \<open>ReadFile\<close> does: it fails, or it succeeds with the bytes it put
  into the buffer (at most 4096, possibly none). With each call comes the time in
  milliseconds for which the call blocks. The list holds the calls that come back; when
  it is used up the next \<open>ReadFile\<close> blocks for good.
\<close>

datatype read_result = ReadFailed | ReadOk string

type_synonym read_event = "nat \<times> read_result"

text \<open>
  The \<open>while (true)\<close> loop of the asynchronous task. The state is the time that has
  passed, \<open>currentLine\<close>, \<open>lines\<close> and the trace. The status is \<open>None\<close> when the
  task is still blocked in \<open>ReadFile\<close> after the last event, so it never returns.
  (\<open>bytesAvail\<close> is written and never read; it is left out.)
\<close>

fun read_loop ::
    "string \<Rightarrow> string \<Rightarrow> HANDLE \<Rightarrow> read_event list \<Rightarrow>
     nat \<times> string \<times> string list \<times> effect list \<Rightarrow>
     Status option \<times> nat \<times> string \<times> string list \<times> effect list" where
  "read_loop last_word log_name h [] (t, currentLine, lines, tr) =
     (None, t, currentLine, lines, tr @ [ReadFile h])"
| "read_loop last_word log_name h ((d, r) # events) (t, currentLine, lines, tr) =
     (let tr1 = tr @ [ReadFile h]; t1 = t + d
      in case r of
           ReadFailed \<Rightarrow> (Some ERR, t1, currentLine, lines, tr1)
         | ReadOk buffer \<Rightarrow>
             if length buffer \<le> 0
             then read_loop last_word log_name h events (t1, currentLine, lines, tr1)
             else (case scan_buffer last_word log_name buffer (currentLine, lines, tr1) of
                     (Some s, st) \<Rightarrow> (Some s, t1, st)
                   | (None, st) \<Rightarrow> read_loop last_word log_name h events (t1, st)))"

text \<open>
  \<open>readFuture.wait_for(threshold)\<close> belongs to the C++ library, not to this class, and
  what it answers depends on the clock. Time is counted here in whole milliseconds from
  the start of the task, and only the blocking of \<open>ReadFile\<close> takes time; the task has
  returned at time \<open>t\<close>. The wait ends with \<open>ready\<close> when the task has returned
  before the deadline and with \<open>timeout\<close> when it returns only after the deadline. A
  wait of zero or less ends at once, so its deadline is time 0. Where the model cannot
  tell, the answer of the library is an argument: when the task returns at the very
  deadline (also a task that is done at once against a wait of zero), and when the
  threshold, a signed 64-bit count of milliseconds, is so large in absolute value that
  its count of nanoseconds added to the clock may not fit in 64 bits (the bound taken
  here is \<open>2 ^ 62\<close> nanoseconds).
\<close>

datatype future_status = ready | timeout | deferred

type_synonym milliseconds = "64 word"

definition deadline_representable :: "milliseconds \<Rightarrow> bool" where
  "deadline_representable threshold = (\<bar>sint threshold\<bar> * 1000000 < 2 ^ 62)"

definition wait_for :: "milliseconds \<Rightarrow> nat \<Rightarrow> future_status \<Rightarrow> future_status" where
  "wait_for threshold t answer =
     (if \<not> deadline_representable threshold then answer
      else if int t < max 0 (sint threshold) then ready
      else if max 0 (sint threshold) < int t then timeout
      else answer)"

text \<open>
  The value the task returned is never read: the status of \<open>readProcess\<close> comes from
  \<open>wait_for\<close> alone. \<open>readFuture\<close> comes from \<open>std::async\<close> with
  \<open>std::launch::async\<close>, so its destructor waits for the task: \<open>readProcess\<close>
  returns only once the task has returned, whatever the status, and never when the task
  never does. \<open>lines.clear()\<close> makes the vector that the caller passes empty, whatever
  it held.
\<close>

definition readProcess ::
    "string list \<Rightarrow> string \<Rightarrow> milliseconds \<Rightarrow> future_status \<Rightarrow> read_event list \<Rightarrow>
     Process \<Rightarrow> world \<Rightarrow> (Status \<times> string list \<times> world) outcome" where
  "readProcess lines last_word threshold wait_answer events p w =
     (if \<not> is_initalized_' p then AssertionFailed
      else let lines0 = [] :: string list
           in case read_loop last_word (log_name_' p) (child_std_out_' p) events
                     (0, [], lines0, trace w) of
                (None, st) \<Rightarrow> NeverReturns
              | (Some s, t, currentLine, lines1, tr) \<Rightarrow>
                  let fut = wait_for threshold t wait_answer
                  in Returns (if fut = timeout then TIMEOUT else OK, lines1, w\<lparr>trace := tr\<rparr>))"

subsection \<open>writeProcess\<close>

text \<open>
  \<open>bytesWritten\<close> is what \<open>WriteFile\<close> stored in it; the last assertion compares
  it with \<open>input.length()\<close>.
\<close>

definition writeProcess ::
    "string \<Rightarrow> DWORD option \<Rightarrow> DWORD option \<Rightarrow> DWORD \<Rightarrow> Process \<Rightarrow> world \<Rightarrow>
     (Process \<times> world) outcome" where
  "writeProcess input alive_answer kill_answer bytesWritten p w =
     (if \<not> is_initalized_' p then AssertionFailed
      else let w1 = emit [writeToEngine input (log_name_' p)] w
           in case alive alive_answer p w1 of
                AssertionFailed \<Rightarrow> AssertionFailed
              | NeverReturns \<Rightarrow> NeverReturns
              | Returns (is_alive, w2) \<Rightarrow>
                  (case (if \<not> is_alive then killProcess kill_answer p w2 else Returns (p, w2)) of
                     AssertionFailed \<Rightarrow> AssertionFailed
                   | NeverReturns \<Rightarrow> NeverReturns
                   | Returns (p3, w3) \<Rightarrow>
                       let w4 = emit [WriteFile (child_std_in_' p3) input
                                        (word_of_nat (length input))] w3
                       in if unat bytesWritten = length input
                          then Returns (p3, w4) else AssertionFailed))"

section \<open>The lines of a byte stream, as the specification describes them\<close>

text \<open>
  The specification speaks of lines: the runs of characters between line terminators,
  carriage return and line feed alike. The definitions below say this without the loop:
  \<open>split_at_terminators\<close> cuts a byte sequence at every terminator (its last element is
  what follows the last terminator), \<open>terminated_runs\<close> keeps the runs that a terminator
  ends, \<open>spec_lines\<close> drops the empty ones. \<open>take_through P\<close> is a list up to and
  including its first element that satisfies \<open>P\<close>.
\<close>

definition is_terminator :: "char \<Rightarrow> bool" where
  "is_terminator c = (c = newline \<or> c = carriage_return)"

fun split_at_terminators :: "string \<Rightarrow> string list" where
  "split_at_terminators [] = [[]]"
| "split_at_terminators (c # cs) =
     (if is_terminator c then [] # split_at_terminators cs
      else (case split_at_terminators cs of
              [] \<Rightarrow> [[c]]
            | run # runs \<Rightarrow> (c # run) # runs))"

definition terminated_runs :: "string \<Rightarrow> string list" where
  "terminated_runs bytes = butlast (split_at_terminators bytes)"

definition spec_lines :: "string \<Rightarrow> string list" where
  "spec_lines bytes = filter (\<lambda>l. l \<noteq> []) (terminated_runs bytes)"

fun take_through :: "('a \<Rightarrow> bool) \<Rightarrow> 'a list \<Rightarrow> 'a list" where
  "take_through P [] = []"
| "take_through P (x # xs) = (if P x then [x] else x # take_through P xs)"

text \<open>
  The bytes that the successive \<open>ReadFile\<close> calls hand over, up to the first call that
  fails, and whether one of the calls fails.
\<close>

fun delivered :: "read_event list \<Rightarrow> string" where
  "delivered [] = []"
| "delivered ((d, ReadFailed) # events) = []"
| "delivered ((d, ReadOk buffer) # events) = buffer @ delivered events"

fun read_fails :: "read_event list \<Rightarrow> bool" where
  "read_fails [] = False"
| "read_fails ((d, ReadFailed) # events) = True"
| "read_fails ((d, ReadOk buffer) # events) = read_fails events"

text \<open>
  For the proofs: the terminated runs and the unfinished run of a byte sequence that
  continues a run already begun.
\<close>

fun runs_from :: "string \<Rightarrow> string \<Rightarrow> string list" where
  "runs_from run [] = []"
| "runs_from run (c # cs) =
     (if is_terminator c then run # runs_from [] cs else runs_from (run @ [c]) cs)"

fun residue :: "string \<Rightarrow> string \<Rightarrow> string" where
  "residue run [] = run"
| "residue run (c # cs) = (if is_terminator c then residue [] cs else residue (run @ [c]) cs)"

definition lines_from :: "string \<Rightarrow> string \<Rightarrow> string list" where
  "lines_from run bytes = filter (\<lambda>l. l \<noteq> []) (runs_from run bytes)"

text \<open>
  The specification's \<open>restart\<close>: \<open>kill\<close>, then \<open>init\<close> with the command, the
  arguments and the log name that the controller held before the \<open>kill\<close>.
\<close>

definition kill_then_init ::
    "DWORD option \<Rightarrow> spawn_answer \<Rightarrow> Process \<Rightarrow> world \<Rightarrow> (Process \<times> world) outcome" where
  "kill_then_init answer os p w =
     (case killProcess answer p w of
        AssertionFailed \<Rightarrow> AssertionFailed
      | NeverReturns \<Rightarrow> NeverReturns
      | Returns (p1, w1) \<Rightarrow> Returns (init (command_' p) (args_' p) (log_name_' p) os p1 w1))"

section \<open>Concrete controllers and answers\<close>

text \<open>
  A controller that was never initialised with an empty world, the answer of an operating
  system that can create neither pipes nor process, and a controller with a running child.
\<close>

definition fresh_Process :: Process where
  "fresh_Process =
     \<lparr>command_' = [], args_' = [], log_name_' = [], is_initalized_' = False,
      pi_' = PROCESS_INFORMATION_zero, child_std_out_' = 0, child_std_in_' = 0\<rparr>"

definition empty_world :: world where
  "empty_world = \<lparr>process_list = {}, trace = []\<rparr>"

definition failed_pipe :: pipe_answer where
  "failed_pipe = \<lparr>pipe_created = False, read_end = 0, write_end = 0\<rparr>"

definition spawn_failed :: spawn_answer where
  "spawn_failed =
     \<lparr>stdout_pipe = failed_pipe, stdin_pipe = failed_pipe, process_created = None\<rparr>"

definition running_Process :: Process where
  "running_Process =
     \<lparr>command_' = ''engine.exe'', args_' = [], log_name_' = ''log1'', is_initalized_' = True,
      pi_' = \<lparr>hProcess = 100, hThread = 104, dwProcessId = 4242, dwThreadId = 4243\<rparr>,
      child_std_out_' = 108, child_std_in_' = 112\<rparr>"

definition running_world :: world where
  "running_world = \<lparr>process_list = {100}, trace = []\<rparr>"

section \<open>Lines: the loop against the specification\<close>

lemma split_at_terminators_nonempty: "split_at_terminators bs \<noteq> []"
  by (induction bs) (auto split: list.splits)

lemma runs_from_split:
  "runs_from run bs =
     butlast (case split_at_terminators bs of [] \<Rightarrow> [] | x # xs \<Rightarrow> (run @ x) # xs)"
proof (induction bs arbitrary: run)
  case Nil
  then show ?case by simp
next
  case (Cons c cs)
  obtain x xs where sp: "split_at_terminators cs = x # xs"
    using split_at_terminators_nonempty [of cs] by (cases "split_at_terminators cs") auto
  show ?case
  proof (cases "is_terminator c")
    case True
    have "runs_from [] cs = butlast (x # xs)"
      using Cons.IH [of "[]"] sp by simp
    with True sp show ?thesis by simp
  next
    case False
    have "runs_from (run @ [c]) cs = butlast ((run @ [c] @ x) # xs)"
      using Cons.IH [of "run @ [c]"] sp by simp
    with False sp show ?thesis by simp
  qed
qed

lemma lines_from_Nil: "lines_from [] bs = spec_lines bs"
  using split_at_terminators_nonempty [of bs]
  by (cases "split_at_terminators bs")
     (simp_all add: lines_from_def spec_lines_def terminated_runs_def runs_from_split)

lemma runs_from_append:
  "runs_from run (xs @ ys) = runs_from run xs @ runs_from (residue run xs) ys"
  by (induction xs arbitrary: run) auto

lemma residue_append: "residue run (xs @ ys) = residue (residue run xs) ys"
  by (induction xs arbitrary: run) auto

lemma lines_from_append:
  "lines_from run (xs @ ys) = lines_from run xs @ lines_from (residue run xs) ys"
  by (simp add: lines_from_def runs_from_append)

lemma take_through_append_hit:
  "\<exists>x \<in> set xs. P x \<Longrightarrow> take_through P (xs @ ys) = take_through P xs"
  by (induction xs) auto

lemma take_through_append_miss:
  "\<forall>x \<in> set xs. \<not> P x \<Longrightarrow> take_through P (xs @ ys) = xs @ take_through P ys"
  by (induction xs) auto

lemma take_through_miss: "\<forall>x \<in> set xs. \<not> P x \<Longrightarrow> take_through P xs = xs"
  by (induction xs) auto

lemma is_terminator_iff: "(c \<noteq> newline \<and> c \<noteq> carriage_return) = (\<not> is_terminator c)"
  by (simp add: is_terminator_def)

lemma scan_buffer_result:
  "scan_buffer lw ln bs (cur, lines, tr) = (s, cur', lines', tr') \<Longrightarrow>
     lines' = lines @ take_through (prefix lw) (lines_from cur bs) \<and>
     (s = Some OK \<or> s = None) \<and>
     (s = Some OK) = (\<exists>l \<in> set (lines_from cur bs). prefix lw l) \<and>
     (s = None \<longrightarrow> cur' = residue cur bs)"
proof (induction bs arbitrary: cur lines tr)
  case Nil
  then show ?case by (auto simp: lines_from_def)
next
  case (Cons c cs)
  show ?case
  proof (cases "is_terminator c")
    case False
    with Cons.prems have "scan_buffer lw ln cs (cur @ [c], lines, tr) = (s, cur', lines', tr')"
      by (simp add: is_terminator_iff)
    from Cons.IH [OF this] False show ?thesis by (auto simp: lines_from_def)
  next
    case True
    show ?thesis
    proof (cases "cur = []")
      case True
      with \<open>is_terminator c\<close> Cons.prems
      have "scan_buffer lw ln cs ([], lines, tr) = (s, cur', lines', tr')"
        by (simp add: is_terminator_iff)
      from Cons.IH [OF this] True \<open>is_terminator c\<close> show ?thesis by (auto simp: lines_from_def)
    next
      case False
      show ?thesis
      proof (cases "prefix lw cur")
        case True
        with False \<open>is_terminator c\<close> Cons.prems show ?thesis
          by (auto simp: is_terminator_iff lines_from_def rfind0_def Let_def)
      next
        case nomatch: False
        with False \<open>is_terminator c\<close> Cons.prems
        have "scan_buffer lw ln cs ([], lines @ [cur], tr @ [readFromEngine cur ln]) = (s, cur', lines', tr')"
          by (simp add: is_terminator_iff rfind0_def Let_def)
        from Cons.IH [OF this] False nomatch \<open>is_terminator c\<close> show ?thesis
          by (auto simp: lines_from_def)
      qed
    qed
  qed
qed


lemma read_loop_result:
  "read_loop lw ln h evs (t, cur, lines, tr) = (s, t', cur', lines', tr') \<Longrightarrow>
     lines' = lines @ take_through (prefix lw) (lines_from cur (delivered evs)) \<and>
     (s = Some OK) = (\<exists>l \<in> set (lines_from cur (delivered evs)). prefix lw l) \<and>
     (s = Some ERR) = ((\<forall>l \<in> set (lines_from cur (delivered evs)). \<not> prefix lw l) \<and> read_fails evs) \<and>
     (s = None) = ((\<forall>l \<in> set (lines_from cur (delivered evs)). \<not> prefix lw l) \<and> \<not> read_fails evs) \<and>
     (s \<noteq> Some TIMEOUT)"
proof (induction evs arbitrary: t cur lines tr)
  case Nil
  then show ?case by (auto simp: lines_from_def)
next
  case (Cons e evs)
  obtain d r where e: "e = (d, r)" by (cases e)
  show ?case
  proof (cases r)
    case ReadFailed
    with e Cons.prems show ?thesis by (auto simp: lines_from_def)
  next
    case (ReadOk b)
    show ?thesis
    proof (cases "b = []")
      case True
      with e ReadOk Cons.prems
      have "read_loop lw ln h evs (t + d, cur, lines, tr @ [ReadFile h]) = (s, t', cur', lines', tr')"
        by simp
      from Cons.IH [OF this] e ReadOk True show ?thesis by simp
    next
      case False
      obtain s1 cur1 lines1 tr1 where
        sc: "scan_buffer lw ln b (cur, lines, tr @ [ReadFile h]) = (s1, cur1, lines1, tr1)"
        by (cases "scan_buffer lw ln b (cur, lines, tr @ [ReadFile h])") auto
      note r1 = scan_buffer_result [OF sc]
      show ?thesis
      proof (cases s1)
        case None
        with e ReadOk False sc Cons.prems
        have "read_loop lw ln h evs (t + d, cur1, lines1, tr1) = (s, t', cur', lines', tr')"
          by simp
        note ih = Cons.IH [OF this]
        from r1 None have miss: "\<forall>l \<in> set (lines_from cur b). \<not> prefix lw l"
          and c1: "cur1 = residue cur b"
          and l1: "lines1 = lines @ take_through (prefix lw) (lines_from cur b)"
          by auto
        from ih miss c1 l1 e ReadOk show ?thesis
          by (auto simp: lines_from_append take_through_append_miss take_through_miss)
      next
        case (Some st)
        with r1 have ok: "s1 = Some OK" by auto
        with e ReadOk False sc Cons.prems
        have res: "s = Some OK" "lines' = lines1"
          by auto
        from r1 ok have hit: "\<exists>l \<in> set (lines_from cur b). prefix lw l"
          and l1: "lines1 = lines @ take_through (prefix lw) (lines_from cur b)"
          by auto
        from res hit l1 e ReadOk show ?thesis
          by (auto simp: lines_from_append take_through_append_hit)
      qed
    qed
  qed
qed

lemma read_loop_append:
  "\<not> read_fails pre \<Longrightarrow> \<forall>l \<in> set (lines_from cur (delivered pre)). \<not> prefix lw l \<Longrightarrow>
   \<exists>tr'. read_loop lw ln h (pre @ evs) (t, cur, lines, tr) =
          read_loop lw ln h evs
            (t + sum_list (map fst pre), residue cur (delivered pre),
             lines @ lines_from cur (delivered pre), tr')"
proof (induction pre arbitrary: t cur lines tr)
  case Nil
  then show ?case by (auto simp: lines_from_def)
next
  case (Cons e pre)
  obtain d r where e: "e = (d, r)" by (cases e)
  from Cons.prems e obtain b where r: "r = ReadOk b" by (cases r) auto
  from Cons.prems e r have nf: "\<not> read_fails pre" by simp
  from Cons.prems e r have miss_b: "\<forall>l \<in> set (lines_from cur b). \<not> prefix lw l"
    and miss_rest: "\<forall>l \<in> set (lines_from (residue cur b) (delivered pre)). \<not> prefix lw l"
    by (auto simp: lines_from_append)
  show ?case
  proof (cases "b = []")
    case True
    from Cons.IH [OF nf, of cur "t + d" lines "tr @ [ReadFile h]"] miss_rest True e r
    show ?thesis by (auto simp: lines_from_def add.assoc)
  next
    case False
    obtain s1 cur1 lines1 tr1 where
      sc: "scan_buffer lw ln b (cur, lines, tr @ [ReadFile h]) = (s1, cur1, lines1, tr1)"
      by (cases "scan_buffer lw ln b (cur, lines, tr @ [ReadFile h])") auto
    from scan_buffer_result [OF sc] miss_b
    have s1: "s1 = None" and c1: "cur1 = residue cur b" and l1: "lines1 = lines @ lines_from cur b"
      by (auto simp: take_through_miss)
    from Cons.IH [OF nf, of cur1 "t + d" lines1 tr1] miss_rest c1
    obtain tr' where
      "read_loop lw ln h (pre @ evs) (t + d, cur1, lines1, tr1) =
       read_loop lw ln h evs (t + d + sum_list (map fst pre), residue cur1 (delivered pre),
         lines1 @ lines_from cur1 (delivered pre), tr')"
      by auto
    with e r False sc s1 c1 l1 show ?thesis
      by (auto simp: lines_from_append residue_append add.assoc)
  qed
qed

section \<open>The life cycle: init, killProcess, restart\<close>

lemma killProcess_Returns:
  "killProcess answer p w =
     Returns (p\<lparr>is_initalized_' := False\<rparr>,
       if is_initalized_' p
       then emit ([GetExitCodeProcess (hProcess (pi_' p))] @
                  (if exit_code_read answer = STILL_ACTIVE
                   then [TerminateProcess (hProcess (pi_' p))] else []) @
                  [CloseHandle (hThread (pi_' p)), CloseHandle (hProcess (pi_' p)),
                   CloseHandle (child_std_out_' p), CloseHandle (child_std_in_' p)])
              (ThreadVector_remove (hProcess (pi_' p)) w)
       else ThreadVector_remove (hProcess (pi_' p)) w)"
  by (simp add: killProcess_def closeHandles_def emit_def Let_def)

text \<open>
  Claim C4, as the specification has it: when the operating system cannot create the
  child process or its pipes, \<open>init\<close> fails, leaves the controller uninitialised and adds
  nothing to the registry. The code checks no return value in \<open>init\<close>: on a fresh
  controller and an empty registry, with every creation failing, \<open>init\<close> comes back with
  \<open>is_initalized_\<close> set and the null handle in the registry.
\<close>

theorem init_spawn_failure_counterexample:
  "is_initalized_' (fst (init ''nosuch.exe'' [] ''log1'' spawn_failed fresh_Process empty_world)) \<and>
   process_list empty_world = {} \<and>
   process_list (snd (init ''nosuch.exe'' [] ''log1'' spawn_failed fresh_Process empty_world)) = {0}"
  by (simp add: init_def Let_def spawn_failed_def failed_pipe_def fresh_Process_def
      empty_world_def ThreadVector_push_def emit_def PROCESS_INFORMATION_zero_def)

text \<open>
  Claim C4, amended: when the operating system cannot create the child process or its
  pipes, \<open>init\<close> still returns normally with \<open>is_initalized_\<close> set, and it pushes
  the process handle of \<open>pi_\<close> onto the registry; \<open>pi_\<close> is all zero, so that handle
  is null, when \<open>CreateProcessA\<close> failed.
\<close>

theorem init_on_spawn_failure:
  assumes "\<not> pipe_created (stdout_pipe os) \<or> \<not> pipe_created (stdin_pipe os) \<or>
           process_created os = None"
  shows "is_initalized_' (fst (init command args log_name os p w)) \<and>
         process_list (snd (init command args log_name os p w)) =
           insert (hProcess (pi_' (fst (init command args log_name os p w)))) (process_list w) \<and>
         pi_' (fst (init command args log_name os p w)) =
           (case process_created os of None \<Rightarrow> PROCESS_INFORMATION_zero | Some info \<Rightarrow> info)"
  by (simp add: init_def Let_def ThreadVector_push_def emit_def split: option.splits)

theorem init_on_spawn_failure_witness:
  "process_created spawn_failed = None \<and>
   is_initalized_' (fst (init ''nosuch.exe'' [] ''log1'' spawn_failed fresh_Process empty_world)) \<and>
   process_list (snd (init ''nosuch.exe'' [] ''log1'' spawn_failed fresh_Process empty_world)) =
     insert 0 (process_list empty_world) \<and>
   pi_' (fst (init ''nosuch.exe'' [] ''log1'' spawn_failed fresh_Process empty_world)) =
     PROCESS_INFORMATION_zero"
  using init_on_spawn_failure [of spawn_failed "''nosuch.exe''" "[]" "''log1''"
      fresh_Process empty_world]
  by (simp add: spawn_failed_def PROCESS_INFORMATION_zero_def)

text \<open>
  Claim C5: after any \<open>init\<close> the child's process handle is in the registry: the handle
  that \<open>CreateProcessA\<close> gave (\<open>info\<close>) when it created the child, in every case the
  handle that \<open>pi_\<close> then holds, and \<open>init\<close> adds that handle and nothing else. After
  any \<open>killProcess\<close> the handle that the controller held in \<open>pi_\<close> before the call,
  which it still holds, is not in the registry, and no other handle has left it. This is
  so whatever the controller and the registry were before; the controller need not be
  initialised, since \<open>killProcess\<close> removes the handle before it looks at
  \<open>is_initalized_\<close>.
\<close>

theorem registry_after_init_and_kill:
  "(process_created os = Some info \<longrightarrow>
      pi_' (fst (init command args log_name os p w)) = info \<and>
      hProcess info \<in> process_list (snd (init command args log_name os p w))) \<and>
   hProcess (pi_' (fst (init command args log_name os p w)))
     \<in> process_list (snd (init command args log_name os p w)) \<and>
   process_list (snd (init command args log_name os p w)) =
     insert (hProcess (pi_' (fst (init command args log_name os p w)))) (process_list w) \<and>
   (\<exists>p1 w1. killProcess answer p w = Returns (p1, w1) \<and>
      pi_' p1 = pi_' p \<and>
      hProcess (pi_' p) \<notin> process_list w1 \<and>
      hProcess (pi_' p1) \<notin> process_list w1 \<and>
      process_list w1 = process_list w - {hProcess (pi_' p)})"
  by (simp add: killProcess_Returns init_def Let_def ThreadVector_remove_def
      ThreadVector_push_def emit_def split: option.splits)

theorem registry_after_init_and_kill_witness:
  "process_created
     \<lparr>stdout_pipe = \<lparr>pipe_created = True, read_end = 108, write_end = 116\<rparr>,
      stdin_pipe = \<lparr>pipe_created = True, read_end = 120, write_end = 112\<rparr>,
      process_created = Some (pi_' running_Process)\<rparr> = Some (pi_' running_Process) \<and>
   process_list (snd (init ''engine.exe'' [] ''log1''
     \<lparr>stdout_pipe = \<lparr>pipe_created = True, read_end = 108, write_end = 116\<rparr>,
      stdin_pipe = \<lparr>pipe_created = True, read_end = 120, write_end = 112\<rparr>,
      process_created = Some (pi_' running_Process)\<rparr> fresh_Process empty_world)) = {100} \<and>
   (\<exists>p1 w1. killProcess (Some STILL_ACTIVE) running_Process
        \<lparr>process_list = {100, 200}, trace = []\<rparr> = Returns (p1, w1) \<and>
      process_list w1 = {200})"
  using registry_after_init_and_kill [of
      "\<lparr>stdout_pipe = \<lparr>pipe_created = True, read_end = 108, write_end = 116\<rparr>,
        stdin_pipe = \<lparr>pipe_created = True, read_end = 120, write_end = 112\<rparr>,
        process_created = Some (pi_' running_Process)\<rparr>"
      "pi_' running_Process" "''engine.exe''" "[]" "''log1''" fresh_Process empty_world]
    registry_after_init_and_kill [of
      "\<lparr>stdout_pipe = \<lparr>pipe_created = True, read_end = 108, write_end = 116\<rparr>,
        stdin_pipe = \<lparr>pipe_created = True, read_end = 120, write_end = 112\<rparr>,
        process_created = Some (pi_' running_Process)\<rparr>"
      "pi_' running_Process" "''engine.exe''" "[]" "''log1''" running_Process
      "\<lparr>process_list = {100, 200}, trace = []\<rparr>" "Some STILL_ACTIVE"]
  by (auto simp: running_Process_def empty_world_def)

text \<open>
  Claim C6: \<open>killProcess\<close> is idempotent. From any controller and world the first call
  returns (no assertion fails, nothing is thrown) with \<open>is_initalized_\<close> false, and a
  second call, whatever the operating system would answer, returns the same controller
  and the same world: it makes no further call to the operating system, so no handle is
  closed a second time and no process terminated again.
\<close>

theorem killProcess_idempotent:
  "\<exists>p1 w1. killProcess answer1 p w = Returns (p1, w1) \<and>
           killProcess answer2 p1 w1 = Returns (p1, w1) \<and>
           \<not> is_initalized_' p1"
  by (simp add: killProcess_Returns ThreadVector_remove_def emit_def)

text \<open>
  Claim C9: \<open>restart\<close> is \<open>killProcess\<close> followed by \<open>init\<close> with the command, the
  arguments and the log name that the controller holds; \<open>killProcess\<close> leaves these three
  fields as they are, and they are the ones the last \<open>init\<close> stored.
\<close>

theorem restart_is_kill_then_init:
  "restart answer os p w = kill_then_init answer os p w \<and>
   (\<exists>p1 w1. killProcess answer p w = Returns (p1, w1) \<and>
      command_' p1 = command_' p \<and> args_' p1 = args_' p \<and> log_name_' p1 = log_name_' p) \<and>
   command_' (fst (init command args log_name os0 p w)) = command \<and>
   args_' (fst (init command args log_name os0 p w)) = args \<and>
   log_name_' (fst (init command args log_name os0 p w)) = log_name"
  by (simp add: restart_def kill_then_init_def killProcess_Returns init_def Let_def
      split: option.splits)

section \<open>writeProcess\<close>

text \<open>
  Claim C8: a call of \<open>writeProcess\<close> on an initialised controller logs the text, asks
  whether the child is alive and, when it is not, runs \<open>killProcess\<close>; in either case
  it then calls \<open>WriteFile\<close> on the handle \<open>child_std_in_\<close> with the bytes of the
  text, and it returns only if the number of bytes written is the length of the text
  (the assertion fails otherwise).
\<close>

theorem writeProcess_steps:
  assumes "is_initalized_' p"
  shows "(unat bytesWritten \<noteq> length input \<longrightarrow>
            writeProcess input alive_answer kill_answer bytesWritten p w = AssertionFailed) \<and>
         (unat bytesWritten = length input \<longrightarrow>
            (\<exists>p1 w1.
               (if exit_code_read alive_answer = STILL_ACTIVE
                then (p1, w1) =
                       (p, emit [writeToEngine input (log_name_' p),
                                 GetExitCodeProcess (hProcess (pi_' p))] w)
                else killProcess kill_answer p
                       (emit [writeToEngine input (log_name_' p),
                              GetExitCodeProcess (hProcess (pi_' p))] w) = Returns (p1, w1)) \<and>
               writeProcess input alive_answer kill_answer bytesWritten p w =
                 Returns (p1, emit [WriteFile (child_std_in_' p) input
                                      (word_of_nat (length input))] w1)))"
  using assms
  by (simp add: writeProcess_def alive_def killProcess_Returns emit_def Let_def)

theorem writeProcess_steps_witness:
  "is_initalized_' running_Process \<and>
   writeProcess ''ping'' (Some 1) None 4 running_Process running_world =
     Returns (running_Process\<lparr>is_initalized_' := False\<rparr>,
       \<lparr>process_list = {},
        trace = [writeToEngine ''ping'' ''log1'', GetExitCodeProcess 100, GetExitCodeProcess 100,
                 CloseHandle 104, CloseHandle 100, CloseHandle 108, CloseHandle 112,
                 WriteFile 112 ''ping'' 4]\<rparr>)"
  using writeProcess_steps [of running_Process 4 "''ping''" "Some 1" None running_world]
  by (simp add: running_Process_def running_world_def killProcess_Returns emit_def
      exit_code_read_def STILL_ACTIVE_def ThreadVector_remove_def)

section \<open>readProcess\<close>

lemmas eval_defs = readProcess_def wait_for_def deadline_representable_def running_Process_def
  running_world_def newline_def carriage_return_def rfind0_def Let_def

lemma readProcess_never_ERR:
  "readProcess lines last_word threshold wait_answer events p w \<noteq> Returns (ERR, ls, w')"
  by (auto simp: readProcess_def Let_def split: prod.splits option.splits)

lemma set_take_through: "set (take_through P xs) \<subseteq> set xs"
  by (induction xs) auto

lemma spec_lines_no_empty: "[] \<notin> set (spec_lines bs)"
  by (simp add: spec_lines_def)

lemma delivered_append:
  "\<not> read_fails pre \<Longrightarrow> delivered (pre @ evs) = delivered pre @ delivered evs"
  by (induction pre rule: delivered.induct) auto

lemma delivered_fails:
  "read_fails pre \<Longrightarrow> delivered (pre @ evs) = delivered pre"
  by (induction pre rule: delivered.induct) auto

lemma take_through_hit_iff: "(\<exists>x \<in> set (take_through P xs). P x) = (\<exists>x \<in> set xs. P x)"
  by (induction xs) auto

lemma take_through_Nil_iff: "(take_through P xs = []) = (xs = [])"
  by (cases xs) auto

lemma take_through_hit_last:
  "\<exists>x \<in> set xs. P x \<Longrightarrow>
     P (last (take_through P xs)) \<and> (\<forall>y \<in> set (butlast (take_through P xs)). \<not> P y)"
  by (induction xs) (auto simp: take_through_Nil_iff)

text \<open>
  When the task returns and when it does not, and what \<open>readProcess\<close> then gives: the
  task returns exactly when a line starts with the terminator prefix or a read fails;
  the status depends on the time the task took and on nothing else, and \<open>lines\<close> holds
  the lines of this call's bytes through the first match. A line that starts with the
  terminator prefix is therefore the last one, and the only one.
\<close>

lemma readProcess_total:
  assumes "is_initalized_' p"
  shows "readProcess lines last_word threshold wait_answer events p w =
     (if read_fails events \<or> (\<exists>l \<in> set (spec_lines (delivered events)). prefix last_word l)
      then Returns
        (if wait_for threshold
              (fst (snd (read_loop last_word (log_name_' p) (child_std_out_' p) events
                 (0, [], [], trace w)))) wait_answer = timeout
         then TIMEOUT else OK,
         take_through (prefix last_word) (spec_lines (delivered events)),
         w\<lparr>trace := snd (snd (snd (snd (read_loop last_word (log_name_' p) (child_std_out_' p)
                 events (0, [], [], trace w)))))\<rparr>)
      else NeverReturns)"
proof -
  obtain st t cur ls tr where
    rl: "read_loop last_word (log_name_' p) (child_std_out_' p) events (0, [], [], trace w) =
       (st, t, cur, ls, tr)"
    by (cases "read_loop last_word (log_name_' p) (child_std_out_' p) events (0, [], [], trace w)")
       auto
  note r = read_loop_result [OF rl]
  show ?thesis
  proof (cases st)
    case None
    with r have "\<not> (read_fails events \<or>
        (\<exists>l \<in> set (spec_lines (delivered events)). prefix last_word l))"
      by (auto simp: lines_from_Nil)
    with None rl assms show ?thesis by (simp add: readProcess_def)
  next
    case (Some s)
    with r have "read_fails events \<or>
        (\<exists>l \<in> set (spec_lines (delivered events)). prefix last_word l)"
      by (cases s) (auto simp: lines_from_Nil)
    moreover from r have "ls = take_through (prefix last_word) (spec_lines (delivered events))"
      by (simp add: lines_from_Nil)
    ultimately show ?thesis using Some rl assms by (simp add: readProcess_def Let_def)
  qed
qed

lemma readProcess_Returns_lines:
  assumes "readProcess lines last_word threshold wait_answer events p w = Returns (s, ls, w')"
  shows "ls = take_through (prefix last_word) (spec_lines (delivered events))"
proof -
  from assms obtain st t cur tr where
    "read_loop last_word (log_name_' p) (child_std_out_' p) events (0, [], [], trace w) =
       (st, t, cur, ls, tr)"
    by (auto simp: readProcess_def Let_def split: if_splits prod.splits option.splits)
  from read_loop_result [OF this] show ?thesis
    by (simp add: lines_from_Nil)
qed

lemma readProcess_match_is_last:
  assumes "readProcess lines last_word threshold wait_answer events p w = Returns (s, ls, w')"
    and "\<exists>l \<in> set ls. prefix last_word l"
  shows "prefix last_word (last ls) \<and> (\<forall>l \<in> set (butlast ls). \<not> prefix last_word l)"
proof -
  note ls = readProcess_Returns_lines [OF assms(1)]
  with assms(2) have "\<exists>l \<in> set (spec_lines (delivered events)). prefix last_word l"
    by (simp add: take_through_hit_iff)
  from take_through_hit_last [OF this] ls show ?thesis by simp
qed

text \<open>
  Claim C1 says that \<open>readProcess\<close> returns \<open>OK\<close> exactly when a line it appended
  starts with the terminator prefix. Here the child writes the line \<open>hello\<close> and the
  next \<open>ReadFile\<close> fails, well before the deadline of 1000 ms: the task returns
  \<open>ERR\<close>, the caller never reads that value and returns \<open>OK\<close>, and no line starts
  with \<open>ok\<close>.
\<close>

theorem readProcess_OK_without_match:
  "readProcess [] ''ok'' 1000 wait_answer [(1, ReadOk (''hello'' @ [newline])), (1, ReadFailed)]
      running_Process running_world =
     Returns (OK, [''hello''],
       running_world\<lparr>trace := [ReadFile 108, readFromEngine ''hello'' ''log1'', ReadFile 108]\<rparr>) \<and>
   \<not> prefix ''ok'' ''hello''"
  by (simp add: eval_defs)

text \<open>
  Claim C2 says that a failing read gives \<open>ERR\<close>. Here the first \<open>ReadFile\<close>
  fails after 1 ms, with a deadline of 1000 ms, and \<open>readProcess\<close> returns \<open>OK\<close>.
\<close>

theorem readProcess_OK_on_read_failure:
  "readProcess [] ''ok'' 1000 wait_answer [(1, ReadFailed)] running_Process running_world =
     Returns (OK, [], running_world\<lparr>trace := [ReadFile 108]\<rparr>)"
  by (simp add: eval_defs)

text \<open>
  Claim C3 says that a threshold of zero never gives \<open>TIMEOUT\<close>. Here the threshold
  is zero and the terminator line arrives after 5 ms: \<open>wait_for\<close> has timed out by
  then and \<open>readProcess\<close> returns \<open>TIMEOUT\<close>.
\<close>

theorem readProcess_TIMEOUT_at_zero:
  "readProcess [] ''ok'' 0 wait_answer [(5, ReadOk (''ok'' @ [newline]))]
      running_Process running_world =
     Returns (TIMEOUT, [''ok''],
       running_world\<lparr>trace := [ReadFile 108, readFromEngine ''ok'' ''log1'']\<rparr>)"
  by (simp add: eval_defs)

text \<open>
  Claim C7, as the specification has it: the lines appended are exactly the non-empty
  terminated runs of the bytes consumed from the child's output. Here one \<open>ReadFile\<close>
  hands over two lines, \<open>ok\<close> and \<open>more\<close>; the first one starts with the terminator
  prefix, the loop returns there, and \<open>more\<close>, taken from the pipe with it, is never
  appended.
\<close>

theorem readProcess_drops_rest_of_buffer:
  "readProcess [] ''ok'' 1000 ready
      [(1, ReadOk (''ok'' @ [newline] @ ''more'' @ [newline]))]
      running_Process running_world =
     Returns (OK, [''ok''],
       running_world\<lparr>trace := [ReadFile 108, readFromEngine ''ok'' ''log1'']\<rparr>) \<and>
   spec_lines (delivered [(1, ReadOk (''ok'' @ [newline] @ ''more'' @ [newline]))]) =
     [''ok'', ''more'']"
  by (simp add: eval_defs spec_lines_def terminated_runs_def is_terminator_def)

text \<open>
  What such a call leaves behind: the bytes after the matching line are gone with the
  local buffer, and the next call starts with an empty \<open>currentLine\<close>. When the first
  call has dropped \<open>best\<close> and the child goes on with \<open>move e2e4\<close>, the next call
  appends \<open>move e2e4\<close>: a run of the bytes that this call read, not a line of the
  child's output.
\<close>

lemma readProcess_after_a_dropped_fragment:
  "readProcess [] ''readyok'' 1000 ready [(1, ReadOk (''readyok'' @ [newline] @ ''best''))]
      running_Process running_world =
     Returns (OK, [''readyok''],
       running_world\<lparr>trace := [ReadFile 108, readFromEngine ''readyok'' ''log1'']\<rparr>) \<and>
   readProcess [''readyok''] ''bestmove'' 1000 ready
      [(1, ReadOk (''move e2e4'' @ [newline])), (1, ReadFailed)]
      running_Process
      (running_world\<lparr>trace := [ReadFile 108, readFromEngine ''readyok'' ''log1'']\<rparr>) =
     Returns (OK, [''move e2e4''],
       running_world\<lparr>trace := [ReadFile 108, readFromEngine ''readyok'' ''log1'',
                                ReadFile 108, readFromEngine ''move e2e4'' ''log1'',
                                ReadFile 108]\<rparr>)"
  by (simp add: eval_defs)

text \<open>
  Claim C7, amended. Take the bytes that the \<open>ReadFile\<close> calls of this one call hand
  over, up to the first call that fails (\<open>delivered events\<close>). On an initialised
  controller, whatever \<open>lines\<close> held before: when one of the reads fails or a non-empty
  terminated run of these bytes starts with the terminator prefix, \<open>readProcess\<close>
  returns, and \<open>lines\<close> then holds, in their order, exactly the non-empty terminated
  runs of these bytes (carriage return and line feed both end a run, so the pair gives no
  empty line) up to and including the first one that starts with the terminator prefix;
  otherwise the call never returns. No element of \<open>lines\<close> is empty.
\<close>

theorem readProcess_lines:
  assumes "is_initalized_' p"
  shows "(if read_fails events \<or> (\<exists>l \<in> set (spec_lines (delivered events)). prefix last_word l)
          then \<exists>s w'. readProcess lines last_word threshold wait_answer events p w =
                 Returns (s, take_through (prefix last_word) (spec_lines (delivered events)), w')
          else readProcess lines last_word threshold wait_answer events p w = NeverReturns) \<and>
         [] \<notin> set (take_through (prefix last_word) (spec_lines (delivered events)))"
proof -
  have "[] \<notin> set (take_through (prefix last_word) (spec_lines (delivered events)))"
    using set_take_through [of "prefix last_word" "spec_lines (delivered events)"]
      spec_lines_no_empty [of "delivered events"] by auto
  then show ?thesis
    using readProcess_total [OF assms] by simp
qed

theorem readProcess_lines_witness:
  "is_initalized_' running_Process \<and>
   readProcess [''stale''] ''uciok'' 1000 ready
      [(1, ReadOk (''id name X'' @ [carriage_return, newline, carriage_return, newline] @ ''uci'')),
       (2, ReadOk (''ok'' @ [newline] @ ''readyok'' @ [newline]))]
      running_Process running_world =
     Returns (OK, [''id name X'', ''uciok''],
       running_world\<lparr>trace := [ReadFile 108, readFromEngine ''id name X'' ''log1'',
                                ReadFile 108, readFromEngine ''uciok'' ''log1'']\<rparr>) \<and>
   take_through (prefix ''uciok'') (spec_lines (delivered
      [(1, ReadOk (''id name X'' @ [carriage_return, newline, carriage_return, newline] @ ''uci'')),
       (2, ReadOk (''ok'' @ [newline] @ ''readyok'' @ [newline]))])) = [''id name X'', ''uciok''] \<and>
   readProcess [''stale''] ''uciok'' 1000 ready [(1, ReadOk (''id name X'' @ [newline]))]
      running_Process running_world = NeverReturns"
  using readProcess_lines [of running_Process
      "[(1, ReadOk (''id name X'' @ [carriage_return, newline, carriage_return, newline] @ ''uci'')),
        (2, ReadOk (''ok'' @ [newline] @ ''readyok'' @ [newline]))]"
      "''uciok''" "[''stale'']" 1000 ready running_world]
    readProcess_lines [of running_Process "[(1, ReadOk (''id name X'' @ [newline]))]"
      "''uciok''" "[''stale'']" 1000 ready running_world]
  by (simp add: eval_defs spec_lines_def terminated_runs_def is_terminator_def)

text \<open>
  Claim C10: with the empty terminator prefix every line matches. Let the reads \<open>pre\<close>
  complete no non-empty line, and let the next read complete one, \<open>l\<close> being the first.
  Then \<open>readProcess\<close> returns when that read comes back, at time \<open>T\<close>, whatever would
  follow, with \<open>lines\<close> holding \<open>l\<close> alone. The status is what \<open>wait_for\<close> makes
  of \<open>T\<close>: it is \<open>OK\<close> when \<open>T\<close> is before the deadline, \<open>TIMEOUT\<close> when it
  is after the deadline, and nothing is said of it at the very deadline or for a
  threshold beyond what the clock can hold.
\<close>

theorem readProcess_empty_terminator:
  assumes init: "is_initalized_' p"
    and quiet: "spec_lines (delivered pre) = []"
    and line: "spec_lines (delivered (pre @ [(d, ReadOk buffer)])) = l # rest"
    and T: "T = sum_list (map fst pre) + d"
  shows "\<exists>s w'. readProcess lines [] threshold wait_answer (pre @ (d, ReadOk buffer) # post) p w =
           Returns (s, [l], w') \<and>
         s = (if wait_for threshold T wait_answer = timeout then TIMEOUT else OK) \<and>
         (deadline_representable threshold \<and> int T < sint threshold \<longrightarrow> s = OK) \<and>
         (deadline_representable threshold \<and> max 0 (sint threshold) < int T \<longrightarrow> s = TIMEOUT)"
proof -
  have nf: "\<not> read_fails pre"
    using quiet line delivered_fails [of pre "[(d, ReadOk buffer)]"] by auto
  have miss: "\<forall>x \<in> set (lines_from [] (delivered pre)). \<not> prefix [] x"
    using quiet by (simp add: lines_from_Nil)
  from read_loop_append [OF nf miss, of "log_name_' p" "child_std_out_' p"
      "(d, ReadOk buffer) # post" 0 "[]" "trace w"]
  obtain tr1 where step:
    "read_loop [] (log_name_' p) (child_std_out_' p) (pre @ (d, ReadOk buffer) # post)
        (0, [], [], trace w) =
     read_loop [] (log_name_' p) (child_std_out_' p) ((d, ReadOk buffer) # post)
        (sum_list (map fst pre), residue [] (delivered pre), [], tr1)"
    using quiet by (auto simp: lines_from_Nil)
  let ?cur = "residue [] (delivered pre)"
  have lf: "lines_from ?cur buffer = l # rest"
    using line quiet nf lines_from_append [of "[]" "delivered pre" buffer]
    by (simp add: delivered_append lines_from_Nil)
  then have ne: "buffer \<noteq> []" by (auto simp: lines_from_def)
  obtain s1 cur1 lines1 tr2 where
    sc: "scan_buffer [] (log_name_' p) buffer (?cur, [], tr1 @ [ReadFile (child_std_out_' p)]) =
           (s1, cur1, lines1, tr2)"
    by (cases "scan_buffer [] (log_name_' p) buffer (?cur, [], tr1 @ [ReadFile (child_std_out_' p)])")
       auto
  from scan_buffer_result [OF sc] lf have "s1 = Some OK" "lines1 = [l]" by auto
  with sc ne have
    "read_loop [] (log_name_' p) (child_std_out_' p) ((d, ReadOk buffer) # post)
        (sum_list (map fst pre), ?cur, [], tr1) =
     (Some OK, sum_list (map fst pre) + d, cur1, [l], tr2)"
    by simp
  with step init T have
    "readProcess lines [] threshold wait_answer (pre @ (d, ReadOk buffer) # post) p w =
       Returns (if wait_for threshold T wait_answer = timeout then TIMEOUT else OK, [l],
         w\<lparr>trace := tr2\<rparr>)"
    by (simp add: readProcess_def Let_def)
  then show ?thesis by (auto simp: wait_for_def)
qed

theorem readProcess_empty_terminator_witness:
  "is_initalized_' running_Process \<and>
   spec_lines (delivered [(2, ReadOk ''uci'')]) = [] \<and>
   spec_lines (delivered ([(2, ReadOk ''uci'')] @ [(3, ReadOk (''ok'' @ [newline] @ ''x''))])) =
     [''uciok''] \<and>
   deadline_representable 10 \<and> int (2 + 3) < sint (10 :: milliseconds) \<and>
   (\<exists>w'. readProcess [] [] 10 timeout
      [(2, ReadOk ''uci''), (3, ReadOk (''ok'' @ [newline] @ ''x'')), (1, ReadFailed)]
      running_Process running_world = Returns (OK, [''uciok''], w')) \<and>
   deadline_representable 4 \<and> max 0 (sint (4 :: milliseconds)) < int (2 + 3) \<and>
   (\<exists>w'. readProcess [] [] 4 ready
      [(2, ReadOk ''uci''), (3, ReadOk (''ok'' @ [newline] @ ''x'')), (1, ReadFailed)]
      running_Process running_world = Returns (TIMEOUT, [''uciok''], w'))"
  using readProcess_empty_terminator [of running_Process "[(2, ReadOk ''uci'')]" 3
      "''ok'' @ [newline] @ ''x''" "''uciok''" "[]" "2 + 3" "[]" 10 timeout "[(1, ReadFailed)]"
      running_world]
    readProcess_empty_terminator [of running_Process "[(2, ReadOk ''uci'')]" 3
      "''ok'' @ [newline] @ ''x''" "''uciok''" "[]" "2 + 3" "[]" 4 ready "[(1, ReadFailed)]"
      running_world]
  by (auto simp: running_Process_def spec_lines_def terminated_runs_def is_terminator_def
      newline_def carriage_return_def deadline_representable_def)

end
